theory Spec2Isabelle
  imports Complex_Main "HOL-Library.Sublist"
begin

section \<open>Python strings\<close>

text \<open>
  A Python \<open>str\<close> is a sequence of code points. The model uses \<open>string\<close>, whose
  characters are the code points below 256 (Latin-1); the library methods the program
  calls (\<open>lower\<close>, \<open>strip\<close>, \<open>startswith\<close>, \<open>in\<close>, \<open>splitlines\<close>) are written
  out for that range as CPython defines them.
\<close>

definition py_isspace :: "char \<Rightarrow> bool" where
  "py_isspace c =
     (let n = (of_char c :: nat)
      in (9 \<le> n \<and> n \<le> 13) \<or> (28 \<le> n \<and> n \<le> 32) \<or> n = 133 \<or> n = 160)"

definition strip :: "string \<Rightarrow> string" where
  "strip s = rev (dropWhile py_isspace (rev (dropWhile py_isspace s)))"

definition py_lower_char :: "char \<Rightarrow> char" where
  "py_lower_char c =
     (let n = (of_char c :: nat)
      in if (65 \<le> n \<and> n \<le> 90) \<or> (192 \<le> n \<and> n \<le> 222 \<and> n \<noteq> 215)
         then char_of (n + 32) else c)"

definition lower :: "string \<Rightarrow> string" where
  "lower s = map py_lower_char s"

fun startswith :: "string \<Rightarrow> string \<Rightarrow> bool" where
  "startswith s [] = True"
| "startswith [] (p # ps) = False"
| "startswith (c # cs) (p # ps) = (c = p \<and> startswith cs ps)"

text \<open>\<open>py_in sub s\<close> is Python's \<open>sub in s\<close> on strings.\<close>

fun py_in :: "string \<Rightarrow> string \<Rightarrow> bool" where
  "py_in sub [] = (sub = [])"
| "py_in sub (c # cs) = (startswith (c # cs) sub \<or> py_in sub cs)"

definition is_linebreak :: "char \<Rightarrow> bool" where
  "is_linebreak c =
     (let n = (of_char c :: nat)
      in (10 \<le> n \<and> n \<le> 13) \<or> (28 \<le> n \<and> n \<le> 30) \<or> n = 133)"

text \<open>
  \<open>str.splitlines()\<close>: a line ends at a line boundary, \<open>\r\n\<close> counts as one
  boundary, the boundaries are dropped, and text after the last boundary is a line
  only when it is not empty.
\<close>

fun splitlines_from :: "string \<Rightarrow> string \<Rightarrow> string list" where
  "splitlines_from cur [] = (if cur = [] then [] else [cur])"
| "splitlines_from cur (c # cs) =
     (if c = CHR 0x0D then
        (case cs of
           [] \<Rightarrow> [cur]
         | d # ds \<Rightarrow> if d = CHR 0x0A then cur # splitlines_from [] ds
                     else cur # splitlines_from [] (d # ds))
      else if is_linebreak c then cur # splitlines_from [] cs
      else splitlines_from (cur @ [c]) cs)"

definition splitlines :: "string \<Rightarrow> string list" where
  "splitlines s = splitlines_from [] s"

text \<open>
  Decimal rendering of an integer, and the format specification \<open>0wd\<close> of an
  f-string (\<open>{idx:03d}\<close>, \<open>{secs:02d}\<close>): sign first, then zeros up to the width.
\<close>

definition digit_char :: "nat \<Rightarrow> char" where
  "digit_char d = char_of (48 + d)"

fun str_nat :: "nat \<Rightarrow> string" where
  "str_nat n = (if n < 10 then [digit_char n] else str_nat (n div 10) @ [digit_char (n mod 10)])"

declare str_nat.simps [simp del]

definition str_int :: "int \<Rightarrow> string" where
  "str_int i = (if i < 0 then CHR ''-'' # str_nat (nat (- i)) else str_nat (nat i))"

definition zfill :: "nat \<Rightarrow> string \<Rightarrow> string" where
  "zfill w s = replicate (w - length s) CHR ''0'' @ s"

definition format_0d :: "nat \<Rightarrow> int \<Rightarrow> string" where
  "format_0d w i =
     (if i < 0 then CHR ''-'' # zfill (w - 1) (str_nat (nat (- i)))
      else zfill w (str_nat (nat i)))"

section \<open>Configuration, exceptions, extractors\<close>

text \<open>
  The attribute \<open>link\<close> of an \<open>argparse.Namespace\<close> holds a list in the parsed
  arguments (\<open>action="append"\<close>) and a string or \<open>None\<close> in a per-job copy.
\<close>

datatype link_value = NoLink | Link string | Links "string list"

fun truthy_link :: "link_value \<Rightarrow> bool" where
  "truthy_link NoLink = False"
| "truthy_link (Link s) = (s \<noteq> [])"
| "truthy_link (Links xs) = (xs \<noteq> [])"

text \<open>\<open>marker in args.link\<close>: substring test on a string, membership on a list.\<close>

fun link_contains :: "string \<Rightarrow> link_value \<Rightarrow> bool" where
  "link_contains m NoLink = False"
| "link_contains m (Link s) = py_in m s"
| "link_contains m (Links xs) = (m \<in> set xs)"

record namespace =
  no_subtitles :: bool
  output_dir :: string
  filename :: string
  aria :: bool
  link :: link_value
  links_file :: "string option"
  continue_on_error :: bool
  server :: "string option"

text \<open>
  Exceptions. \<open>except Exception\<close> catches every exception but those that derive from
  \<open>BaseException\<close> alone (\<open>KeyboardInterrupt\<close>, \<open>SystemExit\<close>).
\<close>

datatype py_exn =
    FileNotFoundError string
  | EOFError
  | OtherException string
  | BaseExceptionOnly string

fun is_Exception :: "py_exn \<Rightarrow> bool" where
  "is_Exception (BaseExceptionOnly m) = False"
| "is_Exception e = True"

text \<open>
  The extractor classes are external; an extractor object is its class with the
  arguments of its constructor (\<open>args\<close>, and \<open>name\<close> where given).
\<close>

datatype extractor =
    HianimeExtractor namespace "string option"
  | InstagramExtractor namespace
  | GeneralExtractor namespace

text \<open>
  What the program calls outside itself, over an abstract world \<open>'w\<close>:
  \<open>extractor.run()\<close> (which may also read standard input), \<open>Path.mkdir\<close>,
  \<open>Path.exists\<close>, \<open>Path.read_text\<close>, and the successive readings of \<open>time.time()\<close>.
\<close>

record 'w externals =
  run :: "extractor \<Rightarrow> string list \<times> 'w \<Rightarrow> py_exn option \<times> string list \<times> 'w"
  mkdir :: "string \<Rightarrow> 'w \<Rightarrow> py_exn option \<times> 'w"
  path_exists :: "string \<Rightarrow> 'w \<Rightarrow> bool"
  read_text :: "string \<Rightarrow> 'w \<Rightarrow> py_exn + string"
  time_time :: "nat \<Rightarrow> real"

section \<open>Input collection: \<open>Main.build_jobs\<close>\<close>

text \<open>The loop over the lines of the links file (lines 121 to 125).\<close>

fun links_file_loop :: "string list \<Rightarrow> string list \<Rightarrow> string list" where
  "links_file_loop jobs [] = jobs"
| "links_file_loop jobs (l # ls) =
     (let line = strip l
      in if line = [] \<or> startswith line ''#'' then links_file_loop jobs ls
         else links_file_loop (jobs @ [line]) ls)"

text \<open>The de-duplication loop (lines 132 to 138) with its set \<open>seen\<close> and list \<open>out\<close>.\<close>

fun dedupe_loop :: "string set \<Rightarrow> string list \<Rightarrow> string list \<Rightarrow> string list" where
  "dedupe_loop seen out [] = out"
| "dedupe_loop seen out (j # js) =
     (if j \<notin> seen then dedupe_loop (insert j seen) (out @ [j]) js
      else dedupe_loop seen out js)"

definition dedupe :: "string list \<Rightarrow> string list" where
  "dedupe jobs = dedupe_loop {} [] jobs"

definition from_links :: "namespace \<Rightarrow> string list" where
  "from_links a =
     (if truthy_link (link a)
      then (case link a of Links xs \<Rightarrow> xs | Link s \<Rightarrow> map (\<lambda>c. [c]) s | NoLink \<Rightarrow> [])
      else [])"

definition legacy_filename :: "namespace \<Rightarrow> string list \<Rightarrow> string list" where
  "legacy_filename a jobs =
     (if jobs = [] \<and> filename a \<noteq> [] \<and> \<not> truthy_link (link a) then jobs @ [filename a] else jobs)"

definition build_jobs :: "'w externals \<Rightarrow> namespace \<Rightarrow> 'w \<Rightarrow> py_exn + string list" where
  "build_jobs X a w =
     (let jobs = from_links a
      in case links_file a of
           None \<Rightarrow> Inr (dedupe (legacy_filename a jobs))
         | Some p \<Rightarrow>
             if p = [] then Inr (dedupe (legacy_filename a jobs))
             else if \<not> path_exists X p w then Inl (FileNotFoundError p)
             else (case read_text X p w of
                     Inl e \<Rightarrow> Inl e
                   | Inr txt \<Rightarrow>
                       Inr (dedupe (legacy_filename a (links_file_loop jobs (splitlines txt))))))"

section \<open>Program state and console output\<close>

text \<open>
  What the program prints, one event per \<open>print\<close> (and per \<open>input\<close> prompt and
  screen clearing), without the colour codes.
\<close>

datatype event =
    NothingToDo
  | Processing nat nat string
  | Failed string py_exn
  | Done nat nat string
  | ClearScreen
  | Banner
  | Instructions
  | Prompt
  | Took string

text \<open>
  The state: \<open>self.args\<close>, the lines still to be read from standard input, the
  console, the number of clock readings taken so far, and the outside world.
\<close>

record 'w state =
  self_args :: namespace
  stdin :: "string list"
  console :: "event list"
  clock_reads :: nat
  world :: 'w

definition print :: "event \<Rightarrow> 'w state \<Rightarrow> 'w state" where
  "print ev st = st\<lparr>console := console st @ [ev]\<rparr>"

definition now :: "'w externals \<Rightarrow> 'w state \<Rightarrow> real \<times> 'w state" where
  "now X st = (time_time X (clock_reads st), st\<lparr>clock_reads := Suc (clock_reads st)\<rparr>)"

definition extractor_run :: "'w externals \<Rightarrow> extractor \<Rightarrow> 'w state \<Rightarrow> py_exn option \<times> 'w state" where
  "extractor_run X ex st =
     (case run X ex (stdin st, world st) of
        (r, rest, w) \<Rightarrow> (r, st\<lparr>stdin := rest, world := w\<rparr>))"

text \<open>
  Elapsed times are differences of clock readings, taken here as exact reals.
  Per job: \<open>int(e // 60)\<close> and \<open>int(e % 60)\<close>; for the whole run: \<open>int(e / 60)\<close>
  (truncation towards zero) and \<open>int(e % 60)\<close>.
\<close>

definition py_mod60 :: "real \<Rightarrow> real" where
  "py_mod60 e = e - 60 * of_int \<lfloor>e / 60\<rfloor>"

definition py_int :: "real \<Rightarrow> int" where
  "py_int r = (if r < 0 then \<lceil>r\<rceil> else \<lfloor>r\<rfloor>)"

definition format_job_elapsed :: "real \<Rightarrow> string" where
  "format_job_elapsed e =
     str_int (py_int (of_int \<lfloor>e / 60\<rfloor>)) @ '':'' @ format_0d 2 (py_int (py_mod60 e))"

definition format_total_elapsed :: "real \<Rightarrow> string" where
  "format_total_elapsed e =
     str_int (py_int (e / 60)) @ '':'' @ format_0d 2 (py_int (py_mod60 e))"

section \<open>Job materialization (lines 29 to 39, and again 78 to 85)\<close>

definition is_url :: "string \<Rightarrow> bool" where
  "is_url item = (startswith (lower item) ''http://'' \<or> startswith (lower item) ''https://'')"

definition materialize :: "namespace \<Rightarrow> nat \<Rightarrow> nat \<Rightarrow> string \<Rightarrow> namespace" where
  "materialize base idx total_n item =
     (let job_args = base
      in if is_url item then
           (let job_args = job_args\<lparr>link := Link item\<rparr>
            in if filename job_args \<noteq> [] \<and> total_n > 1
               then job_args\<lparr>filename := filename job_args @ ''_'' @ format_0d 3 (int idx)\<rparr>
               else job_args)
         else job_args\<lparr>link := NoLink, filename := item\<rparr>)"

section \<open>Routing: \<open>Main.get_extractor\<close>\<close>

text \<open>The part under "Existing behaviors" (lines 99 to 107).\<close>

definition existing_behaviors :: "namespace \<Rightarrow> extractor" where
  "existing_behaviors args =
     (if \<not> truthy_link (link args) \<and> filename args \<noteq> []
      then HianimeExtractor args (Some (filename args))
      else if truthy_link (link args) \<and> link_contains ''hianime'' (link args)
      then HianimeExtractor args None
      else if truthy_link (link args) \<and> link_contains ''instagram.com'' (link args)
      then InstagramExtractor args
      else GeneralExtractor args)"

text \<open>
  The prompt loop (lines 66 to 71). \<open>input\<close> prints the prompt, then returns the next
  line of standard input or raises \<open>EOFError\<close> at its end.
\<close>

fun input_loop ::
  "string list \<Rightarrow> string list \<Rightarrow> event list \<Rightarrow> (py_exn + string list) \<times> string list \<times> event list"
where
  "input_loop items [] con = (Inl EOFError, [], con @ [Prompt])"
| "input_loop items (l # ls) con =
     (let line = strip l
      in if line = [] then (Inr items, ls, con @ [Prompt])
         else input_loop (items @ [line]) ls (con @ [Prompt]))"

text \<open>
  A \<open>for\<close> loop whose body may raise: the first exception ends the loop and
  propagates.
\<close>

fun for_each :: "('a \<Rightarrow> 's \<Rightarrow> py_exn option \<times> 's) \<Rightarrow> 'a list \<Rightarrow> 's \<Rightarrow> py_exn option \<times> 's" where
  "for_each body [] s = (None, s)"
| "for_each body (x # xs) s =
     (case body x s of
        (Some e, s') \<Rightarrow> (Some e, s')
      | (None, s') \<Rightarrow> for_each body xs s')"

lemma for_each_cong [fundef_cong]:
  "xs = ys \<Longrightarrow> s = t \<Longrightarrow> (\<And>x u. x \<in> set ys \<Longrightarrow> f x u = g x u)
   \<Longrightarrow> for_each f xs s = for_each g ys t"
proof (induction ys arbitrary: xs s t)
  case Nil
  then show ?case by simp
next
  case (Cons y ys)
  then show ?case by (auto split: prod.splits option.splits)
qed

lemma input_loop_nonempty:
  "input_loop acc ls con = (Inr items, rest, con') \<Longrightarrow> [] \<notin> set acc \<Longrightarrow> [] \<notin> set items"
  by (induction acc ls con rule: input_loop.induct) (auto simp: Let_def split: if_splits)

lemma materialize_dispatchable:
  "item \<noteq> [] \<Longrightarrow>
   truthy_link (link (materialize base idx total_n item)) \<or> filename (materialize base idx total_n item) \<noteq> []"
  by (simp add: materialize_def Let_def)

function get_extractor ::
  "'w externals \<Rightarrow> namespace \<Rightarrow> 'w state \<Rightarrow> (py_exn + extractor) \<times> 'w state"
where
  "get_extractor X args st =
     (if \<not> truthy_link (link args) \<and> filename args = [] then
        (let st1 = print Instructions (print Banner (print ClearScreen st))
         in case input_loop [] (stdin st1) (console st1) of
              (Inl e, rest, con) \<Rightarrow> (Inl e, st1\<lparr>stdin := rest, console := con\<rparr>)
            | (Inr items, rest, con) \<Rightarrow>
                (let st2 = st1\<lparr>stdin := rest, console := con\<rparr>
                 in if length items > 1 then
                      (let st3 = st2\<lparr>self_args := (self_args st2)\<lparr>link := Links []\<rparr>\<rparr>
                       in case for_each
                                 (\<lambda>(i, it) s.
                                    (let job_args = materialize (self_args s) i (length items) it
                                     in case get_extractor X job_args s of
                                          (Inl e, s') \<Rightarrow> (Some e, s')
                                        | (Inr extractor, s') \<Rightarrow> extractor_run X extractor s'))
                                 (enumerate 1 items) st3 of
                            (Some e, st4) \<Rightarrow> (Inl e, st4)
                          | (None, st4) \<Rightarrow> (Inr (GeneralExtractor args), st4))
                    else
                      (let ans = (case items of [] \<Rightarrow> [] | x # xs \<Rightarrow> x)
                       in if is_url ans
                          then (Inr (existing_behaviors (args\<lparr>link := Link ans\<rparr>)), st2)
                          else (Inr (HianimeExtractor args (Some ans)), st2))))
      else (Inr (existing_behaviors args), st))"
  by pat_completeness auto
termination
proof (relation "measure (\<lambda>(X, args, st). if \<not> truthy_link (link args) \<and> filename args = [] then 1 else 0)")
  show "wf (measure (\<lambda>(X, args, st). if \<not> truthy_link (link args) \<and> filename args = [] then 1 else (0::nat)))"
    by simp
next
  fix X :: "'w externals" and args :: namespace and st :: "'w state"
    and st1 x1 items x2 rest con st2 st3 and p :: "nat \<times> string" and s :: "'w state" and i it job_args
  assume inter: "\<not> truthy_link (link args) \<and> filename args = []"
    and st1: "st1 = print Instructions (print Banner (print ClearScreen st))"
    and il: "(x1, x2) = input_loop [] (stdin st1) (console st1)" "x1 = Inr items" "(rest, con) = x2"
    and mem: "p \<in> set (enumerate 1 items)" "(i, it) = p"
    and ja: "job_args = materialize (self_args s) i (length items) it"
  from il have "input_loop [] (stdin st1) (console st1) = (Inr items, rest, con)"
    by (metis)
  then have "[] \<notin> set items"
    by (rule input_loop_nonempty) simp
  moreover from mem have "it \<in> set items"
    by (metis in_set_zipE enumerate_eq_zip)
  ultimately have "it \<noteq> []" by auto
  then have "truthy_link (link job_args) \<or> filename job_args \<noteq> []"
    unfolding ja by (rule materialize_dispatchable)
  with inter show "((X, job_args, s), X, args, st)
      \<in> measure (\<lambda>(X, args, st). if \<not> truthy_link (link args) \<and> filename args = [] then 1 else 0)"
    by auto
qed

declare get_extractor.simps [simp del]

section \<open>Batch execution: \<open>Main.__init__\<close> and the script\<close>

text \<open>The body of the \<open>try\<close> statement (lines 46 and 47).\<close>

definition try_body :: "'w externals \<Rightarrow> namespace \<Rightarrow> 'w state \<Rightarrow> py_exn option \<times> 'w state" where
  "try_body X job_args st =
     (case get_extractor X job_args st of
        (Inl e, st') \<Rightarrow> (Some e, st')
      | (Inr extractor, st') \<Rightarrow> extractor_run X extractor st')"

text \<open>The \<open>finally\<close> clause (lines 53 to 57).\<close>

definition finally_block :: "'w externals \<Rightarrow> nat \<Rightarrow> nat \<Rightarrow> real \<Rightarrow> 'w state \<Rightarrow> 'w state" where
  "finally_block X idx total_n per_start st =
     (case now X st of
        (t, st') \<Rightarrow> print (Done idx total_n (format_job_elapsed (t - per_start))) st')"

text \<open>
  One iteration of the loop over the jobs (lines 26 to 57). The result \<open>Some e\<close> is
  an exception that leaves the loop.
\<close>

definition run_job ::
  "'w externals \<Rightarrow> nat \<Rightarrow> nat \<times> string \<Rightarrow> 'w state \<Rightarrow> py_exn option \<times> 'w state"
where
  "run_job X total_n =
     (\<lambda>(idx, item) st.
        case now X st of
          (per_start, st1) \<Rightarrow>
            (let job_args = materialize (self_args st1) idx total_n item;
                 st2 = print (Processing idx total_n item) st1
             in case try_body X job_args st2 of
                  (None, st3) \<Rightarrow> (None, finally_block X idx total_n per_start st3)
                | (Some e, st3) \<Rightarrow>
                    if is_Exception e then
                      (let st4 = print (Failed item e) st3
                       in if \<not> continue_on_error (self_args st4)
                          then (Some e, finally_block X idx total_n per_start st4)
                          else (None, finally_block X idx total_n per_start st4))
                    else (Some e, finally_block X idx total_n per_start st3)))"

text \<open>
  \<open>Main.__init__\<close> (lines 15 to 57); \<open>self.args\<close> of the initial state is what
  \<open>parse_args\<close> returned.
\<close>

definition main_init :: "'w externals \<Rightarrow> 'w state \<Rightarrow> py_exn option \<times> 'w state" where
  "main_init X st =
     (case mkdir X (output_dir (self_args st)) (world st) of
        (Some e, w) \<Rightarrow> (Some e, st\<lparr>world := w\<rparr>)
      | (None, w) \<Rightarrow>
          (let st1 = st\<lparr>world := w\<rparr>
           in case build_jobs X (self_args st1) (world st1) of
                Inl e \<Rightarrow> (Some e, st1)
              | Inr jobs \<Rightarrow>
                  if jobs = [] then (None, print NothingToDo st1)
                  else for_each (run_job X (length jobs)) (enumerate 1 jobs) st1))"

text \<open>
  The script (lines 202 to 206). The result \<open>Some e\<close> is an uncaught exception: the
  interpreter prints the traceback and exits with a non-zero status.
\<close>

definition script_main :: "'w externals \<Rightarrow> 'w state \<Rightarrow> py_exn option \<times> 'w state" where
  "script_main X st =
     (case now X st of
        (start, st1) \<Rightarrow>
          (case main_init X st1 of
             (Some e, st2) \<Rightarrow> (Some e, st2)
           | (None, st2) \<Rightarrow>
               (case now X st2 of
                  (t, st3) \<Rightarrow> (None, print (Took (format_total_elapsed (t - start))) st3))))"

section \<open>Reference definitions for the claims\<close>


text \<open>
  The lines of a links file that are kept: each line stripped of surrounding
  whitespace, without the blank ones and the ones that start with \<open>#\<close>.
\<close>

definition kept_lines :: "string list \<Rightarrow> string list" where
  "kept_lines ls = filter (\<lambda>l. l \<noteq> [] \<and> hd l \<noteq> CHR ''#'') (map strip ls)"

text \<open>The values \<open>parse_args\<close> gives when no option is passed (lines 140 to 199).\<close>

definition default_args :: namespace where
  "default_args =
     \<lparr>no_subtitles = False, output_dir = ''output'', filename = [], aria = False,
      link = Links [], links_file = None, continue_on_error = False, server = None\<rparr>"

text \<open>
  A world for the examples: a log of the extractors that were run. Running an
  extractor appends it to the log and fails with \<open>OtherException ''boom''\<close> when the
  extractor is in \<open>failing\<close>; the only file is \<open>links.txt\<close> with the given text.
\<close>

definition example_externals :: "extractor list \<Rightarrow> string \<Rightarrow> (extractor list) externals" where
  "example_externals failing txt =
     \<lparr>run = (\<lambda>ex (inp, w).
               (if ex \<in> set failing then Some (OtherException ''boom'') else None, inp, w @ [ex])),
      mkdir = (\<lambda>p w. (None, w)),
      path_exists = (\<lambda>p w. p = ''links.txt''),
      read_text = (\<lambda>p w. if p = ''links.txt'' then Inr txt else Inl (FileNotFoundError p)),
      time_time = (\<lambda>n. 0)\<rparr>"

definition initial_state :: "namespace \<Rightarrow> string list \<Rightarrow> (extractor list) state" where
  "initial_state a inp = \<lparr>self_args = a, stdin = inp, console = [], clock_reads = 0, world = []\<rparr>"

text \<open>The value of a string of decimal digits.\<close>

definition decimal_value :: "string \<Rightarrow> nat" where
  "decimal_value s = foldl (\<lambda>v c. 10 * v + (of_char c - 48)) 0 s"

definition is_digit :: "char \<Rightarrow> bool" where
  "is_digit c = (48 \<le> (of_char c :: nat) \<and> (of_char c :: nat) \<le> 57)"

text \<open>
  "Case-insensitively starts with \<open>p\<close>", for a lower-case ASCII \<open>p\<close>: the string
  has a prefix of the length of \<open>p\<close> that agrees with \<open>p\<close> character by
  character up to the case of ASCII letters.
\<close>

definition same_letter :: "char \<Rightarrow> char \<Rightarrow> bool" where
  "same_letter c p =
     (c = p \<or> (97 \<le> (of_char p :: nat) \<and> (of_char p :: nat) \<le> 122 \<and>
                (of_char c :: nat) + 32 = of_char p))"

definition starts_caseless :: "string \<Rightarrow> string \<Rightarrow> bool" where
  "starts_caseless s p = (length p \<le> length s \<and> list_all2 same_letter (take (length p) s) p)"

text \<open>
  One iteration of the nested loop of the interactive session (lines 77 to 88), once
  the inner call of \<open>get_extractor\<close> is known not to prompt again.
\<close>

definition nested_step ::
  "'w externals \<Rightarrow> nat \<Rightarrow> nat \<times> string \<Rightarrow> 'w state \<Rightarrow> py_exn option \<times> 'w state"
where
  "nested_step X n =
     (\<lambda>(i, it) s. extractor_run X (existing_behaviors (materialize (self_args s) i n it)) s)"



fun processing_item :: "event \<Rightarrow> string list" where
  "processing_item (Processing i n item) = [item]"
| "processing_item ev = []"

definition attempted :: "event list \<Rightarrow> string list" where
  "attempted evs = concat (map processing_item evs)"






text \<open>
  Runs for the examples: \<open>-l ""\<close> with the lines \<open>a\<close>, \<open>a\<close> and a blank line on
  standard input; \<open>-l a -l a\<close>; and, with \<open>--continue-on-error\<close>, \<open>-l ""\<close> with the
  lines \<open>a\<close>, \<open>b\<close> and a blank line, and \<open>-l a -l b\<close>. In the last two the
  streaming-site extractor for \<open>a\<close> fails.
\<close>

definition empty_link_run :: "(extractor list) state" where
  "empty_link_run = initial_state (default_args\<lparr>link := Links [[]]\<rparr>) [''a'', ''a'', []]"

definition duplicate_links_run :: "(extractor list) state" where
  "duplicate_links_run = initial_state (default_args\<lparr>link := Links [''a'', ''a'']\<rparr>) []"

definition search_a_fails :: "(extractor list) externals" where
  "search_a_fails =
     example_externals
       [HianimeExtractor (default_args\<lparr>continue_on_error := True, link := NoLink, filename := ''a''\<rparr>)
          (Some ''a'')] []"

definition pasted_continue_run :: "(extractor list) state" where
  "pasted_continue_run =
     initial_state (default_args\<lparr>continue_on_error := True, link := Links [[]]\<rparr>) [''a'', ''b'', []]"

definition links_continue_run :: "(extractor list) state" where
  "links_continue_run =
     initial_state (default_args\<lparr>continue_on_error := True, link := Links [''a'', ''b'']\<rparr>) []"







section \<open>De-duplication\<close>








section \<open>The links file\<close>

lemma startswith_prefix: "startswith s p = prefix p s"
  by (induction s p rule: startswith.induct) auto

lemma startswith_hash: "startswith l ''#'' = (l \<noteq> [] \<and> hd l = CHR ''#'')"
  by (cases l) auto

lemma links_file_loop_kept: "links_file_loop jobs ls = jobs @ kept_lines ls"
proof (induction ls arbitrary: jobs)
  case Nil
  then show ?case by (simp add: kept_lines_def)
next
  case (Cons l ls)
  then show ?case
    by (auto simp: kept_lines_def Let_def startswith_hash)
qed

lemma strip_ends:
  assumes "strip s \<noteq> []"
  shows "\<not> py_isspace (hd (strip s))" and "\<not> py_isspace (last (strip s))"
proof -
  define t where "t = dropWhile py_isspace s"
  define u where "u = dropWhile py_isspace (rev t)"
  have su: "strip s = rev u" by (simp add: strip_def t_def u_def)
  with assms have u: "u \<noteq> []" by simp
  then have "\<not> py_isspace (hd u)" unfolding u_def by (rule hd_dropWhile)
  with u show "\<not> py_isspace (last (strip s))" by (simp add: su last_rev)
  from u have t: "t \<noteq> []" unfolding u_def by auto
  then have "\<not> py_isspace (hd t)" unfolding t_def by (rule hd_dropWhile)
  moreover have "last u = last (rev t)"
  proof -
    have "rev t = takeWhile py_isspace (rev t) @ u" by (simp add: u_def)
    then have "last (rev t) = last (takeWhile py_isspace (rev t) @ u)" by simp
    with u show ?thesis by simp
  qed
  ultimately show "\<not> py_isspace (hd (strip s))"
    using t u by (simp add: su hd_rev last_rev)
qed

lemma strip_fixed:
  assumes "t \<noteq> []" "\<not> py_isspace (hd t)" "\<not> py_isspace (last t)"
  shows "strip t = t"
proof -
  from assms have "dropWhile py_isspace t = t" by (cases t) auto
  moreover from assms have "dropWhile py_isspace (rev t) = rev t"
    by (cases "rev t") (auto simp: last_rev [symmetric] hd_rev)
  ultimately show ?thesis by (simp add: strip_def)
qed

lemma strip_all_space:
  assumes "list_all py_isspace l"
  shows "strip l = []"
proof -
  from assms have d: "dropWhile py_isspace l = []"
    by (metis dropWhile_eq_Nil_conv list_all_iff)
  show ?thesis
    by (simp only: strip_def d rev.simps dropWhile.simps)
qed

lemma hash_not_space: "\<not> py_isspace CHR ''#''"
  by (simp add: py_isspace_def)

lemma strip_indented_hash:
  assumes "dropWhile py_isspace l = CHR ''#'' # r"
  shows "strip l \<noteq> [] \<and> hd (strip l) = CHR ''#''"
proof -
  have "\<exists>v. dropWhile py_isspace (rev r @ [CHR ''#'']) = v @ [CHR ''#'']"
    using hash_not_space by (simp add: dropWhile_append)
  then obtain v where "dropWhile py_isspace (rev r @ [CHR ''#'']) = v @ [CHR ''#'']" ..
  then have "strip l = CHR ''#'' # rev v"
    using assms by (simp add: strip_def)
  then show ?thesis by simp
qed

text \<open>
  Claim C10. Every line of the links file is stripped before the tests and before it
  is added: a collected item is not empty and neither starts nor ends with
  whitespace, what the loop appends is the kept lines in order, a line of whitespace
  only is skipped, and so is a line whose first character that is not whitespace
  is \<open>#\<close>.
\<close>

theorem links_file_lines_stripped:
  "(\<forall>t \<in> set (kept_lines ls). t \<noteq> [] \<and> \<not> py_isspace (hd t) \<and> \<not> py_isspace (last t) \<and> strip t = t) \<and>
   links_file_loop jobs ls = jobs @ kept_lines ls \<and>
   (list_all py_isspace l \<longrightarrow> links_file_loop jobs (l # ls) = links_file_loop jobs ls) \<and>
   (dropWhile py_isspace l = CHR ''#'' # r \<longrightarrow> links_file_loop jobs (l # ls) = links_file_loop jobs ls)"
proof -
  have "t \<noteq> [] \<and> \<not> py_isspace (hd t) \<and> \<not> py_isspace (last t) \<and> strip t = t"
    if "t \<in> set (kept_lines ls)" for t
  proof -
    from that obtain l where t: "t = strip l" "strip l \<noteq> []"
      by (auto simp: kept_lines_def)
    then show ?thesis
      using strip_ends [of l] strip_fixed [of t] by simp
  qed
  moreover have "links_file_loop jobs (l # ls) = links_file_loop jobs ls" if "list_all py_isspace l"
    using strip_all_space [OF that] by simp
  moreover have "links_file_loop jobs (l # ls) = links_file_loop jobs ls"
    if "dropWhile py_isspace l = CHR ''#'' # r"
    using strip_indented_hash [OF that] by (simp add: startswith_hash)
  ultimately show ?thesis
    using links_file_loop_kept by blast
qed

theorem links_file_lines_stripped_witness:
  "links_file_loop [] [''  foo  '', ''   '', ''  # c''] = [''foo''] \<and>
   list_all py_isspace ''   '' \<and>
   links_file_loop [''x''] [''   '', ''y''] = links_file_loop [''x''] [''y''] \<and>
   dropWhile py_isspace ''  # c'' = CHR ''#'' # '' c'' \<and>
   links_file_loop [''x''] [''  # c'', ''y''] = links_file_loop [''x''] [''y'']"
proof -
  have k: "kept_lines [''  foo  '', ''   '', ''  # c''] = [''foo'']"
    by (simp add: kept_lines_def strip_def py_isspace_def)
  have b: "list_all py_isspace ''   ''"
    by (simp add: py_isspace_def)
  have c: "dropWhile py_isspace ''  # c'' = CHR ''#'' # '' c''"
    by (simp add: py_isspace_def)
  from links_file_lines_stripped [of "[''  foo  '', ''   '', ''  # c'']" "[]" "''   ''" "'' c''"]
  have "links_file_loop [] [''  foo  '', ''   '', ''  # c''] = [''foo'']"
    unfolding k by simp
  moreover from links_file_lines_stripped [of "[''y'']" "[''x'']" "''   ''" "'' c''"] b
  have "links_file_loop [''x''] [''   '', ''y''] = links_file_loop [''x''] [''y'']"
    by blast
  moreover from links_file_lines_stripped [of "[''y'']" "[''x'']" "''  # c''" "'' c''"] c
  have "links_file_loop [''x''] [''  # c'', ''y''] = links_file_loop [''x''] [''y'']"
    by blast
  ultimately show ?thesis using b c by blast
qed

text \<open>
  Claim C9. With a links-file path that does not exist, collection fails with the
  missing-file error, and \<open>Main.__init__\<close> ends with it in the state \<open>mkdir\<close> left:
  nothing was printed and no extractor ran. With a file that exists and can be read,
  the job list is the links, then the kept lines of the file in file order
  (de-duplicated afterwards).
\<close>

theorem links_file_collection:
  "links_file (self_args st) = Some p \<Longrightarrow> p \<noteq> [] \<Longrightarrow>
   mkdir X (output_dir (self_args st)) (world st) = (None, w) \<Longrightarrow>
   (\<not> path_exists X p w \<longrightarrow>
      build_jobs X (self_args st) w = Inl (FileNotFoundError p) \<and>
      main_init X st = (Some (FileNotFoundError p), st\<lparr>world := w\<rparr>)) \<and>
   (path_exists X p w \<and> read_text X p w = Inr txt \<longrightarrow>
      build_jobs X (self_args st) w =
        Inr (dedupe (legacy_filename (self_args st)
                       (from_links (self_args st) @ kept_lines (splitlines txt)))))"
  by (simp add: build_jobs_def main_init_def links_file_loop_kept)

theorem links_file_collection_witness:
  "build_jobs (example_externals [] ''# comment\<newline>\<newline>http://a.com\<newline>foo\<newline>'')
     (default_args\<lparr>links_file := Some ''links.txt''\<rparr>) [] = Inr [''http://a.com'', ''foo''] \<and>
   main_init (example_externals [] [])
     (initial_state (default_args\<lparr>links_file := Some ''missing.txt''\<rparr>) []) =
     (Some (FileNotFoundError ''missing.txt''),
      initial_state (default_args\<lparr>links_file := Some ''missing.txt''\<rparr>) [])"
proof -
  let ?txt = "''# comment\<newline>\<newline>http://a.com\<newline>foo\<newline>''"
  have lines: "splitlines ?txt = [''# comment'', [], ''http://a.com'', ''foo'']"
    by (simp add: splitlines_def is_linebreak_def)
  have kept: "kept_lines [''# comment'', [], ''http://a.com'', ''foo''] = [''http://a.com'', ''foo'']"
    by (simp add: kept_lines_def strip_def py_isspace_def)
  have dd: "dedupe [''http://a.com'', ''foo''] = [''http://a.com'', ''foo'']"
    by (simp add: dedupe_def)
  from links_file_collection
    [of "initial_state (default_args\<lparr>links_file := Some ''links.txt''\<rparr>) []" "''links.txt''"
        "example_externals [] ?txt" "[]" ?txt]
  have "build_jobs (example_externals [] ?txt)
          (default_args\<lparr>links_file := Some ''links.txt''\<rparr>) [] = Inr [''http://a.com'', ''foo'']"
    unfolding lines kept
    by (simp add: initial_state_def default_args_def example_externals_def
        from_links_def legacy_filename_def dd)
  moreover from links_file_collection
    [of "initial_state (default_args\<lparr>links_file := Some ''missing.txt''\<rparr>) []" "''missing.txt''"
        "example_externals [] []" "[]" "[]"]
  have "main_init (example_externals [] [])
     (initial_state (default_args\<lparr>links_file := Some ''missing.txt''\<rparr>) []) =
     (Some (FileNotFoundError ''missing.txt''),
      initial_state (default_args\<lparr>links_file := Some ''missing.txt''\<rparr>) [])"
    by (simp add: initial_state_def default_args_def example_externals_def)
  ultimately show ?thesis by blast
qed

section \<open>Decimal formatting\<close>

lemma of_char_digit_char: "d < 10 \<Longrightarrow> (of_char (digit_char d) :: nat) = 48 + d"
  by (simp add: digit_char_def)

lemma decimal_value_snoc: "decimal_value (s @ [c]) = 10 * decimal_value s + (of_char c - 48)"
  by (simp add: decimal_value_def)

lemma decimal_value_str_nat: "decimal_value (str_nat n) = n"
proof (induction n rule: str_nat.induct)
  case (1 n)
  show ?case
  proof (cases "n < 10")
    case True
    then show ?thesis
      by (subst str_nat.simps) (simp add: decimal_value_def of_char_digit_char)
  next
    case False
    with 1 have "decimal_value (str_nat (n div 10)) = n div 10" by simp
    with False show ?thesis
      by (subst str_nat.simps) (simp add: decimal_value_snoc of_char_digit_char)
  qed
qed

lemma digits_str_nat: "list_all is_digit (str_nat n)"
proof (induction n rule: str_nat.induct)
  case (1 n)
  show ?case
  proof (cases "n < 10")
    case True
    then show ?thesis
      by (subst str_nat.simps) (simp add: is_digit_def of_char_digit_char)
  next
    case False
    with 1 have "list_all is_digit (str_nat (n div 10))" by simp
    with False show ?thesis
      by (subst str_nat.simps) (simp add: is_digit_def of_char_digit_char)
  qed
qed

lemma length_str_nat_pos: "0 < length (str_nat n)"
  by (subst str_nat.simps) simp

lemma length_str_nat_le3: "(length (str_nat n) \<le> 3) = (n < 1000)"
proof -
  have l1: "length (str_nat k) = 1" if "k < 10" for k
    using that by (subst str_nat.simps) simp
  have l2: "length (str_nat k) = 2" if "10 \<le> k" "k < 100" for k
  proof -
    from that have "k div 10 < 10" by simp
    then show ?thesis using that by (subst str_nat.simps) (simp add: l1)
  qed
  have l3: "length (str_nat k) = 3" if "100 \<le> k" "k < 1000" for k
  proof -
    from that have "10 \<le> k div 10" "k div 10 < 100" by simp_all
    then show ?thesis using that by (subst str_nat.simps) (simp add: l2)
  qed
  have l4: "length (str_nat k) \<ge> 4" if "1000 \<le> k" for k
  proof -
    have a: "length (str_nat k) = Suc (length (str_nat (k div 10)))"
      using that by (subst str_nat.simps) simp
    have b: "length (str_nat (k div 10)) = Suc (length (str_nat (k div 10 div 10)))"
      using that by (subst str_nat.simps) simp
    have c: "length (str_nat (k div 10 div 10)) = Suc (length (str_nat (k div 10 div 10 div 10)))"
      using that by (subst str_nat.simps) simp
    have "Suc 0 \<le> length (str_nat (k div 10 div 10 div 10))"
      using length_str_nat_pos [of "k div 10 div 10 div 10"] by (simp only: Suc_le_eq)
    with a b c show ?thesis by linarith
  qed
  show ?thesis
    using l1 [of n] l2 [of n] l3 [of n] l4 [of n] by (cases "n < 10"; cases "n < 100"; cases "n < 1000") auto
qed

lemma decimal_value_zeros: "decimal_value (replicate k CHR ''0'' @ s) = decimal_value s"
  by (induction k) (simp_all add: decimal_value_def)

lemma format_0d_3_nat:
  "format_0d 3 (int i) = replicate (3 - length (str_nat i)) CHR ''0'' @ str_nat i"
  by (simp add: format_0d_def zfill_def)

lemma format_0d_3_props:
  "decimal_value (format_0d 3 (int i)) = i \<and> list_all is_digit (format_0d 3 (int i)) \<and>
   length (format_0d 3 (int i)) = (if i < 1000 then 3 else length (str_nat i))"
proof -
  have "is_digit CHR ''0''" by (simp add: is_digit_def)
  then have "list_all is_digit (replicate k CHR ''0'')" for k
    by (simp add: list_all_iff)
  moreover have "length (format_0d 3 (int i)) = (if i < 1000 then 3 else length (str_nat i))"
    using length_str_nat_le3 [of i] by (auto simp: format_0d_3_nat)
  ultimately show ?thesis
    by (simp add: format_0d_3_nat decimal_value_zeros decimal_value_str_nat digits_str_nat)
qed

section \<open>Classification of items\<close>

lemma of_char_py_lower:
  "(of_char (py_lower_char c) :: nat) =
     (if (65 \<le> (of_char c :: nat) \<and> (of_char c :: nat) \<le> 90) \<or>
         (192 \<le> (of_char c :: nat) \<and> (of_char c :: nat) \<le> 222 \<and> (of_char c :: nat) \<noteq> 215)
      then of_char c + 32 else of_char c)"
  by (auto simp: py_lower_char_def Let_def)

lemma py_lower_ascii:
  assumes "(of_char p :: nat) < 128"
  shows "(py_lower_char c = p) = (\<not> (65 \<le> (of_char p :: nat) \<and> (of_char p :: nat) \<le> 90) \<and> same_letter c p)"
proof -
  define n m where "n = (of_char c :: nat)" and "m = (of_char p :: nat)"
  have cp: "(c = p) = (n = m)"
    unfolding n_def m_def by (rule of_char_eq_iff [symmetric])
  have lp: "(py_lower_char c = p) = ((of_char (py_lower_char c) :: nat) = m)"
    unfolding m_def by (rule of_char_eq_iff [symmetric])
  have low: "(of_char (py_lower_char c) :: nat) =
      (if (65 \<le> n \<and> n \<le> 90) \<or> (192 \<le> n \<and> n \<le> 222 \<and> n \<noteq> 215) then n + 32 else n)"
    unfolding n_def by (rule of_char_py_lower)
  have sl: "same_letter c p = (n = m \<or> (97 \<le> m \<and> m \<le> 122 \<and> n + 32 = m))"
    unfolding same_letter_def cp by (simp only: n_def m_def)
  from assms have m: "m < 128" by (simp only: m_def)
  show ?thesis
    unfolding lp low sl m_def [symmetric] using m by presburger
qed

lemma startswith_lower:
  assumes "\<forall>p \<in> set ps. (of_char p :: nat) < 128 \<and> \<not> (65 \<le> (of_char p :: nat) \<and> (of_char p :: nat) \<le> 90)"
  shows "startswith (lower s) ps = starts_caseless s ps"
  using assms
proof (induction s ps rule: startswith.induct)
  case (1 s)
  then show ?case by (simp add: starts_caseless_def lower_def)
next
  case (2 p ps)
  then show ?case by (simp add: starts_caseless_def lower_def)
next
  case (3 c cs p ps)
  then have "startswith (lower cs) ps = starts_caseless cs ps" by simp
  moreover from 3 have "(py_lower_char c = p) = same_letter c p"
    by (simp add: py_lower_ascii)
  ultimately show ?case
    by (auto simp: starts_caseless_def lower_def)
qed

lemma is_url_caseless:
  "is_url item = (starts_caseless item ''http://'' \<or> starts_caseless item ''https://'')"
proof -
  have "startswith (lower item) ''http://'' = starts_caseless item ''http://''"
    by (rule startswith_lower) simp
  moreover have "startswith (lower item) ''https://'' = starts_caseless item ''https://''"
    by (rule startswith_lower) simp
  ultimately show ?thesis by (simp add: is_url_def)
qed

section \<open>Materialization\<close>

text \<open>
  Claim C3. An item that case-insensitively starts with \<open>http://\<close> or \<open>https://\<close>
  becomes the link of the job, and the filename becomes the base filename, an
  underscore and the index padded with zeros to three digits exactly when the base
  filename is not empty and the batch has more than one item; otherwise the filename
  stays. Any other item gives no link and becomes the filename. The padded index is a
  string of digits with the value of the index, of length three up to 999 and without
  padding from 1000 on. No other field changes.
\<close>

theorem materialize_spec:
  "is_url item = (starts_caseless item ''http://'' \<or> starts_caseless item ''https://'') \<and>
   (is_url item \<longrightarrow>
      materialize base idx total_n item =
        base\<lparr>link := Link item,
             filename := (if filename base \<noteq> [] \<and> 1 < total_n
                          then filename base @ ''_'' @ format_0d 3 (int idx)
                          else filename base)\<rparr>) \<and>
   (\<not> is_url item \<longrightarrow> materialize base idx total_n item = base\<lparr>link := NoLink, filename := item\<rparr>) \<and>
   decimal_value (format_0d 3 (int idx)) = idx \<and>
   list_all is_digit (format_0d 3 (int idx)) \<and>
   length (format_0d 3 (int idx)) = (if idx < 1000 then 3 else length (str_nat idx)) \<and>
   (1000 \<le> idx \<longrightarrow> format_0d 3 (int idx) = str_nat idx)"
proof -
  have "materialize base idx total_n item =
          base\<lparr>link := Link item,
               filename := (if filename base \<noteq> [] \<and> 1 < total_n
                            then filename base @ ''_'' @ format_0d 3 (int idx)
                            else filename base)\<rparr>" if "is_url item"
    using that by (simp add: materialize_def Let_def)
  moreover have "materialize base idx total_n item = base\<lparr>link := NoLink, filename := item\<rparr>"
    if "\<not> is_url item"
    using that by (simp add: materialize_def Let_def)
  moreover have "format_0d 3 (int idx) = str_nat idx" if "1000 \<le> idx"
  proof -
    from that have "\<not> length (str_nat idx) \<le> 3"
      by (simp add: length_str_nat_le3)
    then show ?thesis by (simp add: format_0d_3_nat)
  qed
  ultimately show ?thesis
    using is_url_caseless [of item] format_0d_3_props [of idx] by blast
qed

theorem materialize_spec_witness:
  "is_url ''HTTPS://a.com/2'' \<and>
   link (materialize (default_args\<lparr>filename := ''x''\<rparr>) 2 3 ''HTTPS://a.com/2'') = Link ''HTTPS://a.com/2'' \<and>
   filename (materialize (default_args\<lparr>filename := ''x''\<rparr>) 2 3 ''HTTPS://a.com/2'') = ''x_002'' \<and>
   filename (materialize (default_args\<lparr>filename := ''x''\<rparr>) 1 1 ''HTTPS://a.com/2'') = ''x'' \<and>
   \<not> is_url ''naruto'' \<and>
   materialize (default_args\<lparr>filename := ''x''\<rparr>) 1 3 ''naruto'' =
     default_args\<lparr>link := NoLink, filename := ''naruto''\<rparr>"
proof -
  let ?b = "default_args\<lparr>filename := ''x''\<rparr>"
  have u: "starts_caseless ''HTTPS://a.com/2'' ''https://''"
    by (simp add: starts_caseless_def same_letter_def)
  have n: "\<not> starts_caseless ''naruto'' ''http://''" "\<not> starts_caseless ''naruto'' ''https://''"
    by (simp_all add: starts_caseless_def same_letter_def)
  have f: "format_0d 3 (int 2) = ''002''"
    by code_simp
  have b: "filename ?b = ''x''"
    by (simp add: default_args_def)
  from materialize_spec [of "''HTTPS://a.com/2''" ?b 2 3] u
  have 1: "is_url ''HTTPS://a.com/2''"
    and 2: "materialize ?b 2 3 ''HTTPS://a.com/2'' = ?b\<lparr>link := Link ''HTTPS://a.com/2'', filename := ''x_002''\<rparr>"
    unfolding f b by simp_all
  from materialize_spec [of "''HTTPS://a.com/2''" ?b 1 1] u
  have 3: "materialize ?b 1 1 ''HTTPS://a.com/2'' = ?b\<lparr>link := Link ''HTTPS://a.com/2'', filename := ''x''\<rparr>"
    unfolding b by simp
  from materialize_spec [of "''naruto''" ?b 1 3] n
  have 4: "\<not> is_url ''naruto''"
    and 5: "materialize ?b 1 3 ''naruto'' = ?b\<lparr>link := NoLink, filename := ''naruto''\<rparr>"
    by simp_all
  show ?thesis
    unfolding 2 3 5 using 1 4 by simp
qed

section \<open>Routing\<close>

lemma py_in_sublist: "py_in sub s = sublist sub s"
  by (induction s) (simp_all add: startswith_prefix sublist_Cons_right)

lemma get_extractor_dispatch:
  "truthy_link (link args) \<or> filename args \<noteq> [] \<Longrightarrow>
   get_extractor X args st = (Inr (existing_behaviors args), st)"
  by (subst get_extractor.simps) auto

text \<open>
  Claim C2. For a per-job configuration (the link is a string or \<open>None\<close>) with a
  link present or a filename that is not empty, \<open>get_extractor\<close> returns one
  extractor, raises nothing and changes nothing: without a link, the streaming-site
  extractor with the filename as the name to search; with \<open>hianime\<close> in the link,
  the streaming-site extractor; else with \<open>instagram.com\<close> in the link, the
  social-media extractor; else the general one.
\<close>

theorem router_first_match:
  assumes "link args = NoLink \<or> link args = Link l"
    and "truthy_link (link args) \<or> filename args \<noteq> []"
  shows "\<exists>ex. get_extractor X args st = (Inr ex, st) \<and>
     (\<not> truthy_link (link args) \<longrightarrow> ex = HianimeExtractor args (Some (filename args))) \<and>
     (truthy_link (link args) \<and> sublist ''hianime'' l \<longrightarrow> ex = HianimeExtractor args None) \<and>
     (truthy_link (link args) \<and> \<not> sublist ''hianime'' l \<and> sublist ''instagram.com'' l \<longrightarrow>
        ex = InstagramExtractor args) \<and>
     (truthy_link (link args) \<and> \<not> sublist ''hianime'' l \<and> \<not> sublist ''instagram.com'' l \<longrightarrow>
        ex = GeneralExtractor args)"
proof -
  from assms(2) have "get_extractor X args st = (Inr (existing_behaviors args), st)"
    by (rule get_extractor_dispatch)
  moreover have "existing_behaviors args = HianimeExtractor args (Some (filename args))"
    if "\<not> truthy_link (link args)"
    using that assms(2) by (simp add: existing_behaviors_def)
  moreover have "link_contains m (link args) = sublist m l" if "truthy_link (link args)" for m
    using that assms(1) by (auto simp: py_in_sublist)
  then have "existing_behaviors args =
      (if sublist ''hianime'' l then HianimeExtractor args None
       else if sublist ''instagram.com'' l then InstagramExtractor args
       else GeneralExtractor args)" if "truthy_link (link args)"
    using that by (simp add: existing_behaviors_def)
  ultimately show ?thesis by auto
qed

theorem router_first_match_witness:
  "get_extractor (example_externals [] []) (default_args\<lparr>link := NoLink, filename := ''naruto''\<rparr>)
     (initial_state default_args []) =
     (Inr (HianimeExtractor (default_args\<lparr>link := NoLink, filename := ''naruto''\<rparr>) (Some ''naruto'')),
      initial_state default_args []) \<and>
   get_extractor (example_externals [] []) (default_args\<lparr>link := Link ''https://hianime.to/w''\<rparr>)
     (initial_state default_args []) =
     (Inr (HianimeExtractor (default_args\<lparr>link := Link ''https://hianime.to/w''\<rparr>) None),
      initial_state default_args []) \<and>
   get_extractor (example_externals [] []) (default_args\<lparr>link := Link ''https://instagram.com/p''\<rparr>)
     (initial_state default_args []) =
     (Inr (InstagramExtractor (default_args\<lparr>link := Link ''https://instagram.com/p''\<rparr>)),
      initial_state default_args []) \<and>
   get_extractor (example_externals [] []) (default_args\<lparr>link := Link ''https://example.org/v''\<rparr>)
     (initial_state default_args []) =
     (Inr (GeneralExtractor (default_args\<lparr>link := Link ''https://example.org/v''\<rparr>)),
      initial_state default_args [])"
proof -
  let ?X = "example_externals [] []" and ?st = "initial_state default_args []"
  have h: "sublist ''hianime'' ''https://hianime.to/w''"
    and i: "\<not> sublist ''hianime'' ''https://instagram.com/p''" "sublist ''instagram.com'' ''https://instagram.com/p''"
    and g: "\<not> sublist ''hianime'' ''https://example.org/v''" "\<not> sublist ''instagram.com'' ''https://example.org/v''"
    by (simp_all add: py_in_sublist [symmetric])
  have "get_extractor ?X (default_args\<lparr>link := NoLink, filename := ''naruto''\<rparr>) ?st =
     (Inr (HianimeExtractor (default_args\<lparr>link := NoLink, filename := ''naruto''\<rparr>) (Some ''naruto'')), ?st)"
    using router_first_match [of "default_args\<lparr>link := NoLink, filename := ''naruto''\<rparr>" "[]" ?X ?st]
    by auto
  moreover have "get_extractor ?X (default_args\<lparr>link := Link ''https://hianime.to/w''\<rparr>) ?st =
     (Inr (HianimeExtractor (default_args\<lparr>link := Link ''https://hianime.to/w''\<rparr>) None), ?st)"
    using router_first_match [of "default_args\<lparr>link := Link ''https://hianime.to/w''\<rparr>"
        "''https://hianime.to/w''" ?X ?st] h
    by auto
  moreover have "get_extractor ?X (default_args\<lparr>link := Link ''https://instagram.com/p''\<rparr>) ?st =
     (Inr (InstagramExtractor (default_args\<lparr>link := Link ''https://instagram.com/p''\<rparr>)), ?st)"
    using router_first_match [of "default_args\<lparr>link := Link ''https://instagram.com/p''\<rparr>"
        "''https://instagram.com/p''" ?X ?st] i
    by auto
  moreover have "get_extractor ?X (default_args\<lparr>link := Link ''https://example.org/v''\<rparr>) ?st =
     (Inr (GeneralExtractor (default_args\<lparr>link := Link ''https://example.org/v''\<rparr>)), ?st)"
    using router_first_match [of "default_args\<lparr>link := Link ''https://example.org/v''\<rparr>"
        "''https://example.org/v''" ?X ?st] g
    by auto
  ultimately show ?thesis by blast
qed

section \<open>The interactive session resolved\<close>


lemma nested_loop_resolved:
  assumes "[] \<notin> set items"
  shows "for_each
           (\<lambda>(i, it) s.
              case get_extractor X (materialize (self_args s) i n it) s of
                (Inl e, s') \<Rightarrow> (Some e, s')
              | (Inr extractor, s') \<Rightarrow> extractor_run X extractor s')
           (enumerate k items) st =
         for_each (nested_step X n) (enumerate k items) st"
proof (rule for_each_cong)
  fix x :: "nat \<times> string" and u :: "'a state"
  assume "x \<in> set (enumerate k items)"
  then have "snd x \<in> set items"
    by (metis in_set_zipE enumerate_eq_zip prod.collapse)
  with assms have "snd x \<noteq> []" by auto
  then have "get_extractor X (materialize (self_args u) (fst x) n (snd x)) u =
      (Inr (existing_behaviors (materialize (self_args u) (fst x) n (snd x))), u)"
    by (intro get_extractor_dispatch materialize_dispatchable)
  then show "(case x of (i, it) \<Rightarrow> \<lambda>s.
              case get_extractor X (materialize (self_args s) i n it) s of
                (Inl e, s') \<Rightarrow> (Some e, s')
              | (Inr extractor, s') \<Rightarrow> extractor_run X extractor s') u = nested_step X n x u"
    by (cases x) (simp add: nested_step_def)
qed simp_all

lemma get_extractor_interactive:
  assumes "\<not> truthy_link (link args)" "filename args = []"
  shows "get_extractor X args st =
     (case input_loop [] (stdin st) (console st @ [ClearScreen, Banner, Instructions]) of
        (Inl e, rest, con) \<Rightarrow> (Inl e, st\<lparr>stdin := rest, console := con\<rparr>)
      | (Inr items, rest, con) \<Rightarrow>
          if length items > 1 then
            (case for_each (nested_step X (length items)) (enumerate 1 items)
                    (st\<lparr>stdin := rest, console := con,
                        self_args := (self_args st)\<lparr>link := Links []\<rparr>\<rparr>) of
               (Some e, st4) \<Rightarrow> (Inl e, st4)
             | (None, st4) \<Rightarrow> (Inr (GeneralExtractor args), st4))
          else
            (let ans = (case items of [] \<Rightarrow> [] | x # xs \<Rightarrow> x)
             in if is_url ans
                then (Inr (existing_behaviors (args\<lparr>link := Link ans\<rparr>)), st\<lparr>stdin := rest, console := con\<rparr>)
                else (Inr (HianimeExtractor args (Some ans)), st\<lparr>stdin := rest, console := con\<rparr>)))"
proof -
  obtain r rest con where il: "input_loop [] (stdin st) (console st @ [ClearScreen, Banner, Instructions]) = (r, rest, con)"
    by (metis prod_cases3)
  show ?thesis
  proof (cases r)
    case (Inl e)
    with il assms show ?thesis
      by (subst get_extractor.simps) (simp add: print_def)
  next
    case (Inr items)
    with il have "[] \<notin> set items"
      by (auto dest: input_loop_nonempty)
    then have res: "\<And>k s. for_each
           (\<lambda>(i, it) s.
              case get_extractor X (materialize (self_args s) i (length items) it) s of
                (Inl e, s') \<Rightarrow> (Some e, s')
              | (Inr extractor, s') \<Rightarrow> extractor_run X extractor s')
           (enumerate k items) s = for_each (nested_step X (length items)) (enumerate k items) s"
      by (rule nested_loop_resolved)
    from Inr il assms show ?thesis
      by (subst get_extractor.simps) (simp add: print_def res Let_def)
  qed
qed

section \<open>What routing and extraction leave unchanged\<close>




lemma attempted_append: "attempted (xs @ ys) = attempted xs @ attempted ys"
  by (simp add: attempted_def)













section \<open>The batch loop\<close>
















section \<open>Whole runs\<close>

lemmas run_eval =
  main_init_def script_main_def build_jobs_def from_links_def legacy_filename_def dedupe_def
  run_job_def now_def print_def try_body_def get_extractor_interactive get_extractor_dispatch
  materialize_def is_url_def lower_def py_lower_char_def strip_def py_isspace_def
  nested_step_def existing_behaviors_def extractor_run_def finally_block_def
  example_externals_def initial_state_def default_args_def Let_def

text \<open>
  Claim C6, on the run \<open>-l ""\<close>: the collector yields one item, the empty string, and
  the dispatch of that job enters the interactive session (the banner is printed and
  three lines are read).
\<close>

theorem interactive_entered_with_one_item:
  "build_jobs (example_externals [] []) (self_args empty_link_run) [] = Inr [[]] \<and>
   console (snd (main_init (example_externals [] []) empty_link_run)) =
     [Processing 1 1 [], ClearScreen, Banner, Instructions, Prompt, Prompt, Prompt,
      Done 1 1 (format_job_elapsed 0)] \<and>
   stdin (snd (main_init (example_externals [] []) empty_link_run)) = []"
  by (simp add: empty_link_run_def run_eval)

text \<open>
  Claim C7, on concrete runs. Pasting \<open>a\<close> twice runs the extractor for \<open>a\<close> twice
  and then a general extractor without a link, and prints no progress line for the
  pasted items, where the batch \<open>-l a -l a\<close> runs it once. With continue-on-error
  and a failing \<open>a\<close>, the pasted \<open>b\<close> is never run, where the batch
  \<open>-l a -l b\<close> runs both.
\<close>

theorem nested_batch_differs:
  "world (snd (main_init (example_externals [] []) empty_link_run)) =
     [HianimeExtractor (default_args\<lparr>link := NoLink, filename := ''a''\<rparr>) (Some ''a''),
      HianimeExtractor (default_args\<lparr>link := NoLink, filename := ''a''\<rparr>) (Some ''a''),
      GeneralExtractor (default_args\<lparr>link := NoLink\<rparr>)] \<and>
   attempted (console (snd (main_init (example_externals [] []) empty_link_run))) = [[]] \<and>
   world (snd (main_init (example_externals [] []) duplicate_links_run)) =
     [HianimeExtractor (default_args\<lparr>link := NoLink, filename := ''a''\<rparr>) (Some ''a'')] \<and>
   attempted (console (snd (main_init (example_externals [] []) duplicate_links_run))) = [''a''] \<and>
   world (snd (main_init search_a_fails pasted_continue_run)) =
     [HianimeExtractor (default_args\<lparr>continue_on_error := True, link := NoLink, filename := ''a''\<rparr>)
        (Some ''a'')] \<and>
   world (snd (main_init search_a_fails links_continue_run)) =
     [HianimeExtractor (default_args\<lparr>continue_on_error := True, link := NoLink, filename := ''a''\<rparr>)
        (Some ''a''),
      HianimeExtractor (default_args\<lparr>continue_on_error := True, link := NoLink, filename := ''b''\<rparr>)
        (Some ''b'')]"
  by (simp add: empty_link_run_def duplicate_links_run_def search_a_fails_def
      pasted_continue_run_def links_continue_run_def attempted_def run_eval)








lemma py_mod60_range: "0 \<le> py_mod60 e \<and> py_mod60 e < 60"
proof -
  have "of_int \<lfloor>e / 60\<rfloor> \<le> e / 60" "e / 60 < of_int \<lfloor>e / 60\<rfloor> + 1"
    by linarith+
  then show ?thesis
    unfolding py_mod60_def by (simp add: field_simps)
qed

lemma seconds_field:
  "\<exists>k < 60. py_int (py_mod60 e) = int k"
proof -
  define z where "z = \<lfloor>py_mod60 e\<rfloor>"
  from py_mod60_range [of e] have "0 \<le> z" "z < 60"
    unfolding z_def by (simp_all add: floor_less_iff)
  moreover from py_mod60_range [of e] have "py_int (py_mod60 e) = z"
    unfolding z_def by (simp add: py_int_def)
  ultimately have "nat z < 60" "py_int (py_mod60 e) = int (nat z)"
    by linarith+
  then show ?thesis by blast
qed

lemma length_str_nat_le2: "n < 100 \<Longrightarrow> length (str_nat n) \<le> 2"
proof -
  assume n: "n < 100"
  have l1: "length (str_nat k) = 1" if "k < 10" for k
    using that by (subst str_nat.simps) simp
  show ?thesis
  proof (cases "n < 10")
    case True
    then show ?thesis by (simp add: l1)
  next
    case False
    with n have "n div 10 < 10" by simp
    with False show ?thesis by (subst str_nat.simps) (simp add: l1)
  qed
qed

lemma format_0d_2_seconds:
  assumes "k < 60"
  shows "length (format_0d 2 (int k)) = 2 \<and> list_all is_digit (format_0d 2 (int k)) \<and>
         decimal_value (format_0d 2 (int k)) = k"
proof -
  have f: "format_0d 2 (int k) = replicate (2 - length (str_nat k)) CHR ''0'' @ str_nat k"
    by (simp add: format_0d_def zfill_def)
  from assms have "length (str_nat k) \<le> 2" by (intro length_str_nat_le2) simp
  then have "length (format_0d 2 (int k)) = 2" by (simp add: f)
  moreover have "is_digit CHR ''0''" by (simp add: is_digit_def)
  then have "list_all is_digit (replicate m CHR ''0'')" for m
    by (simp add: list_all_iff)
  then have "list_all is_digit (format_0d 2 (int k))" by (simp add: f digits_str_nat)
  moreover have "decimal_value (format_0d 2 (int k)) = k"
    by (simp add: f decimal_value_zeros decimal_value_str_nat)
  ultimately show ?thesis by blast
qed

lemma format_total_elapsed_shape:
  "\<exists>s. format_total_elapsed e = str_int (py_int (e / 60)) @ '':'' @ s \<and>
       length s = 2 \<and> list_all is_digit s \<and> decimal_value s < 60"
proof -
  from seconds_field [of e] obtain k where k: "k < 60" "py_int (py_mod60 e) = int k" by blast
  from format_0d_2_seconds [OF k(1)] k show ?thesis
    by (auto simp: format_total_elapsed_def)
qed

section \<open>The total elapsed time\<close>





section \<open>Continue-on-error\<close>










end
